theory Spec2Isabelle
  imports Complex_Main
begin

section \<open>Numbers, errors and the pygame rectangle\<close>

text \<open>
  Pixel coordinates and speeds are Python numbers: the tile size is an integer, the
  player's speed is \<open>tile_size / 4\<close> and a halved adversary speed is an integer divided
  by two, so every coordinate the game computes is an integer multiple of a quarter.
  They are modelled as rationals, on which addition, subtraction and halving are exact,
  as they are on these values in the source. Clock readings (\<open>time.time()\<close>) are
  rationals handed to each operation by its caller. Sound playback and images do
  not touch the simulation state and are left out.
\<close>

datatype error = IndexError | ValueError | KeyError | ZeroDivisionError | FileNotFoundError | OSError

datatype direction = Up | Down | Left | Right

type_synonym matrix = "int list list"

type_synonym position = "rat \<times> rat"

text \<open>Python's \<open>int(x)\<close> on a number: truncation towards zero.\<close>

definition py_int :: "rat \<Rightarrow> int" where
  "py_int q = (if 0 \<le> q then \<lfloor>q\<rfloor> else \<lceil>q\<rceil>)"

text \<open>Python list indexing: a negative index counts from the end, anything else out of
  range raises IndexError.\<close>

definition norm_index :: "'a list \<Rightarrow> int \<Rightarrow> int" where
  "norm_index xs i = (if i < 0 then int (length xs) + i else i)"

definition py_get :: "'a list \<Rightarrow> int \<Rightarrow> error + 'a" where
  "py_get xs i =
     (let j = norm_index xs i
      in if 0 \<le> j \<and> j < int (length xs) then Inr (xs ! nat j) else Inl IndexError)"

text \<open>\<open>random.choice(seq)\<close> returns \<open>seq[k]\<close> for a draw \<open>k\<close> below \<open>len(seq)\<close>; the
  generator's raw draw \<open>r\<close> is a parameter of the model.\<close>

definition random_choice :: "'a list \<Rightarrow> nat \<Rightarrow> 'a" where
  "random_choice xs r = xs ! (r mod length xs)"

text \<open>\<open>random.randint(a, b)\<close> draws uniformly from the integers \<open>a, ..., b\<close>, both ends
  included.\<close>

definition randint_outcomes :: "int \<Rightarrow> int \<Rightarrow> int list" where
  "randint_outcomes a b = [a..b]"

text \<open>\<open>pygame.Rect(x, y, w, h)\<close> stores C integers: a float argument is truncated.
  \<open>colliderect\<close> is pygame's overlap test: rectangles of zero width or height collide
  with nothing, touching edges do not overlap.\<close>

type_synonym rect = "int \<times> int \<times> int \<times> int"

definition Rect :: "rat \<Rightarrow> rat \<Rightarrow> rat \<Rightarrow> rat \<Rightarrow> rect" where
  "Rect x y w h = (py_int x, py_int y, py_int w, py_int h)"

fun colliderect :: "rect \<Rightarrow> rect \<Rightarrow> bool" where
  "colliderect (ax, ay, aw, ah) (bx, by, bw, bh) =
     (if aw = 0 \<or> ah = 0 \<or> bw = 0 \<or> bh = 0 then False
      else min ax (ax + aw) < max bx (bx + bw) \<and>
           min ay (ay + ah) < max by (by + bh) \<and>
           max ax (ax + aw) > min bx (bx + bw) \<and>
           max ay (ay + ah) > min by (by + bh))"

section \<open>Entities and the game object\<close>

record entity =
  start_pos :: position
  pos :: position
  speed :: rat
  current_direction :: direction
  alive :: bool
  frightened :: bool
  respawn_time :: rat
  original_speed :: rat

type_synonym ghost = entity

record pacman = entity +
  lives :: int

text \<open>The level files: what opening and parsing a path yields. \<open>Rows\<close> holds the rows
  of the CSV file converted to integers, empty rows included.\<close>

datatype csv_file = NotFound | Unreadable | NotIntegers | Rows "int list list"

text \<open>\<open>config["levels"]\<close> is a dictionary keyed by the decimal text of the level number;
  the level itself is kept as that number.\<close>

record game =
  tile_size :: int
  levels :: "(nat \<times> string) list"
  level :: nat
  matrix :: matrix
  pacman :: pacman
  ghosts :: "ghost list"
  score :: int
  power_pill_active :: bool
  power_pill_start_time :: rat
  game_over :: bool

record keys =
  K_UP :: bool
  K_DOWN :: bool
  K_LEFT :: bool
  K_RIGHT :: bool

definition convert_to_pixels :: "game \<Rightarrow> int \<Rightarrow> int" where
  "convert_to_pixels g zahl = zahl * tile_size g"

text \<open>The expression \<open>matrix[int(y / convert_to_pixels(1))][int(x / convert_to_pixels(1))]\<close>
  of the teleport and pickup steps.\<close>

definition occupied_index :: "game \<Rightarrow> position \<Rightarrow> error + (int \<times> int)" where
  "occupied_index g p =
     (if convert_to_pixels g 1 = 0 then Inl ZeroDivisionError
      else Inr (py_int (snd p / of_int (convert_to_pixels g 1)),
                py_int (fst p / of_int (convert_to_pixels g 1))))"

definition occupied_code :: "game \<Rightarrow> position \<Rightarrow> error + int" where
  "occupied_code g p =
     (case occupied_index g p of
        Inl e \<Rightarrow> Inl e
      | Inr (iy, ix) \<Rightarrow>
          (case py_get (matrix g) iy of
             Inl e \<Rightarrow> Inl e
           | Inr row \<Rightarrow> py_get row ix))"

text \<open>The assignment \<open>matrix[iy][ix] = v\<close> after a successful read of the same cell.\<close>

definition set_cell :: "matrix \<Rightarrow> int \<Rightarrow> int \<Rightarrow> int \<Rightarrow> matrix" where
  "set_cell m iy ix v =
     (let y = nat (norm_index m iy); row = m ! y
      in m[y := row[nat (norm_index row ix) := v]])"

subsection \<open>Entity\<close>

definition entity_init :: "position \<Rightarrow> rat \<Rightarrow> entity" where
  "entity_init position sp =
     \<lparr>start_pos = position, pos = position, speed = sp, current_direction = Right,
      alive = True, frightened = False, respawn_time = 0, original_speed = sp\<rparr>"

definition entity_kill :: "rat \<Rightarrow> 'a entity_scheme \<Rightarrow> 'a entity_scheme" where
  "entity_kill now e =
     (if alive e
      then e\<lparr>respawn_time := now, alive := False, pos := start_pos e,
             current_direction := Right\<rparr>
      else e)"

definition respawn :: "'a entity_scheme \<Rightarrow> 'a entity_scheme" where
  "respawn e =
     e\<lparr>pos := start_pos e, respawn_time := 0, alive := True, frightened := False,
       speed := original_speed e, current_direction := Right\<rparr>"

text \<open>\<open>check_collision_wall\<close>: the one-tile box moved by \<open>speed\<close> along \<open>direction\<close> is
  tested against every cell, row by row, returning at the first hit. A row shorter than
  the first one raises IndexError when the scan reaches its missing cell.\<close>

definition moved_rect :: "game \<Rightarrow> direction \<Rightarrow> rat \<Rightarrow> position \<Rightarrow> rect" where
  "moved_rect g d sp p =
     (let size = of_int (convert_to_pixels g 1)
      in case d of
           Up \<Rightarrow> Rect (fst p) (snd p - sp) size size
         | Down \<Rightarrow> Rect (fst p) (snd p + sp) size size
         | Left \<Rightarrow> Rect (fst p - sp) (snd p) size size
         | Right \<Rightarrow> Rect (fst p + sp) (snd p) size size)"

definition wall_rect :: "game \<Rightarrow> nat \<Rightarrow> nat \<Rightarrow> rect" where
  "wall_rect g x y =
     Rect (of_int (convert_to_pixels g (int x))) (of_int (convert_to_pixels g (int y)))
          (of_int (convert_to_pixels g 1)) (of_int (convert_to_pixels g 1))"

fun scan_walls :: "game \<Rightarrow> rect \<Rightarrow> bool \<Rightarrow> (nat \<times> nat) list \<Rightarrow> error + bool" where
  "scan_walls g r is_pacman [] = Inr False"
| "scan_walls g r is_pacman ((y, x) # cells) =
     (if length (matrix g ! y) \<le> x then Inl IndexError
      else if matrix g ! y ! x = 1 \<and> colliderect r (wall_rect g x y) then Inr True
      else if matrix g ! y ! x = 2 \<and> is_pacman \<and> colliderect r (wall_rect g x y) then Inr True
      else scan_walls g r is_pacman cells)"

definition check_collision_wall ::
  "game \<Rightarrow> direction \<Rightarrow> rat \<Rightarrow> position \<Rightarrow> bool \<Rightarrow> error + bool" where
  "check_collision_wall g d sp p is_pacman =
     scan_walls g (moved_rect g d sp p) is_pacman
       (List.product [0..<length (matrix g)] [0..<length (hd (matrix g))])"

definition step_pos :: "direction \<Rightarrow> rat \<Rightarrow> position \<Rightarrow> position" where
  "step_pos d sp p =
     (case d of
        Up \<Rightarrow> (fst p, snd p - sp)
      | Down \<Rightarrow> (fst p, snd p + sp)
      | Left \<Rightarrow> (fst p - sp, snd p)
      | Right \<Rightarrow> (fst p + sp, snd p))"

definition entity_move :: "game \<Rightarrow> bool \<Rightarrow> 'a entity_scheme \<Rightarrow> error + 'a entity_scheme" where
  "entity_move g is_pacman e =
     (case check_collision_wall g (current_direction e) (speed e) (pos e) is_pacman of
        Inl err \<Rightarrow> Inl err
      | Inr blocked \<Rightarrow>
          Inr (if \<not> blocked then e\<lparr>pos := step_pos (current_direction e) (speed e) (pos e)\<rparr>
               else e))"

subsection \<open>Teleport\<close>

definition check_for_teleport ::
  "game \<Rightarrow> position \<Rightarrow> direction \<Rightarrow> error + (bool \<times> position)" where
  "check_for_teleport g p d =
     (case occupied_code g p of
        Inl e \<Rightarrow> Inl e
      | Inr c \<Rightarrow>
          if c = 3 then
            Inr (True,
              (case d of
                 Right \<Rightarrow> (of_int (convert_to_pixels g 1), snd p)
               | Left \<Rightarrow> (of_int (convert_to_pixels g (int (length (hd (matrix g))) - 2)), snd p)
               | Up \<Rightarrow> (fst p, of_int (convert_to_pixels g (int (length (matrix g)) - 2)))
               | Down \<Rightarrow> (fst p, of_int (convert_to_pixels g 1))))
          else Inr (False, p))"

subsection \<open>Adversaries\<close>

definition ghost_init :: "game \<Rightarrow> position \<Rightarrow> ghost" where
  "ghost_init g position =
     entity_init position (of_int (py_int (of_int (convert_to_pixels g 1) / 5)))"

definition create_ghosts_from_matrix :: "game \<Rightarrow> ghost list" where
  "create_ghosts_from_matrix g =
     concat (map (\<lambda>(y, row).
         map (\<lambda>(x, cell). ghost_init g (of_int (convert_to_pixels g (int x)),
                                          of_int (convert_to_pixels g (int y))))
           (filter (\<lambda>(x, cell). cell = 5) (enumerate 0 row)))
       (enumerate 0 (matrix g)))"

text \<open>One of the four tests of \<open>is_intersection\<close>: the conjunction is evaluated from the
  left, so the teleport resolver runs, and may move the adversary, only when the heading
  differs from the current one and is free of walls.\<close>

definition probe ::
  "game \<Rightarrow> direction \<Rightarrow> ghost \<times> direction list \<Rightarrow> error + (ghost \<times> direction list)" where
  "probe g d st =
     (let gh = fst st; possible_directions = snd st
      in if current_direction gh \<noteq> d then
           (case check_collision_wall g d (speed gh) (pos gh) False of
              Inl e \<Rightarrow> Inl e
            | Inr blocked \<Rightarrow>
                if \<not> blocked then
                  (case check_for_teleport g (pos gh) (current_direction gh) of
                     Inl e \<Rightarrow> Inl e
                   | Inr (teleported, p) \<Rightarrow>
                       Inr (gh\<lparr>pos := p\<rparr>,
                            if \<not> teleported then possible_directions @ [d]
                            else possible_directions))
                else Inr (gh, possible_directions))
         else Inr (gh, possible_directions))"

definition scan_directions :: "game \<Rightarrow> ghost \<Rightarrow> error + (ghost \<times> direction list)" where
  "scan_directions g gh =
     (case probe g Up (gh, []) of
        Inl e \<Rightarrow> Inl e
      | Inr s1 \<Rightarrow>
          (case probe g Down s1 of
             Inl e \<Rightarrow> Inl e
           | Inr s2 \<Rightarrow>
               (case probe g Left s2 of
                  Inl e \<Rightarrow> Inl e
                | Inr s3 \<Rightarrow> probe g Right s3)))"

definition is_intersection :: "game \<Rightarrow> ghost \<Rightarrow> error + (bool \<times> ghost)" where
  "is_intersection g gh =
     (case scan_directions g gh of
        Inl e \<Rightarrow> Inl e
      | Inr (gh', ds) \<Rightarrow> Inr (length ds > 1, gh'))"

definition reverse :: "direction \<Rightarrow> direction" where
  "reverse d = (case d of Up \<Rightarrow> Down | Down \<Rightarrow> Up | Left \<Rightarrow> Right | Right \<Rightarrow> Left)"

definition change_direction_random :: "nat \<Rightarrow> ghost \<Rightarrow> ghost" where
  "change_direction_random r gh =
     gh\<lparr>current_direction :=
          random_choice (remove1 (reverse (current_direction gh)) [Up, Down, Left, Right]) r\<rparr>"

definition ghost_move :: "game \<Rightarrow> nat \<Rightarrow> ghost \<Rightarrow> error + ghost" where
  "ghost_move g r gh =
     (case check_collision_wall g (current_direction gh) (speed gh) (pos gh) False of
        Inl e \<Rightarrow> Inl e
      | Inr blocked \<Rightarrow>
          if \<not> blocked then
            (case entity_move g False gh of
               Inl e \<Rightarrow> Inl e
             | Inr gh1 \<Rightarrow>
                 (case is_intersection g gh1 of
                    Inl e \<Rightarrow> Inl e
                  | Inr (b, gh2) \<Rightarrow> Inr (if b then change_direction_random r gh2 else gh2)))
          else Inr (change_direction_random r gh))"

text \<open>\<open>update_ghosts\<close>: the adversaries in list order; \<open>clock k\<close> is the reading of
  \<open>time.time()\<close> and \<open>pick k\<close> the random draw when adversary \<open>k\<close> is handled.\<close>

fun update_ghosts_from ::
  "game \<Rightarrow> (nat \<Rightarrow> rat) \<Rightarrow> (nat \<Rightarrow> nat) \<Rightarrow> nat \<Rightarrow> ghost list \<Rightarrow> error + ghost list" where
  "update_ghosts_from g clock pick k [] = Inr []"
| "update_ghosts_from g clock pick k (gh # rest) =
     (case (if \<not> alive gh \<and> clock k - respawn_time gh > 3 then Inr (respawn gh)
            else if alive gh then ghost_move g (pick k) gh
            else Inr gh) of
        Inl e \<Rightarrow> Inl e
      | Inr gh' \<Rightarrow>
          (case update_ghosts_from g clock pick (Suc k) rest of
             Inl e \<Rightarrow> Inl e
           | Inr rest' \<Rightarrow> Inr (gh' # rest')))"

definition update_ghosts :: "(nat \<Rightarrow> rat) \<Rightarrow> (nat \<Rightarrow> nat) \<Rightarrow> game \<Rightarrow> error + game" where
  "update_ghosts clock pick g =
     (case update_ghosts_from g clock pick 0 (ghosts g) of
        Inl e \<Rightarrow> Inl e
      | Inr gs \<Rightarrow> Inr (g\<lparr>ghosts := gs\<rparr>))"

subsection \<open>Player\<close>

definition find_coordinates_of_value :: "game \<Rightarrow> int \<Rightarrow> position list" where
  "find_coordinates_of_value g v =
     concat (map (\<lambda>(y, row).
         map (\<lambda>(x, cell). (of_int (convert_to_pixels g (int x)),
                            of_int (convert_to_pixels g (int y))))
           (filter (\<lambda>(x, cell). cell = v) (enumerate 0 row)))
       (enumerate 0 (matrix g)))"

definition pacman_init :: "game \<Rightarrow> position \<Rightarrow> pacman" where
  "pacman_init g position =
     \<lparr>start_pos = position, pos = position, speed = of_int (convert_to_pixels g 1) / 4,
      current_direction = Right, alive = True, frightened = False, respawn_time = 0,
      original_speed = of_int (convert_to_pixels g 1) / 4, lives = 3\<rparr>"

definition create_pacman_from_matrix :: "game \<Rightarrow> error + pacman" where
  "create_pacman_from_matrix g =
     (case find_coordinates_of_value g 7 of
        [] \<Rightarrow> Inl ValueError
      | start # _ \<Rightarrow> Inr (pacman_init g start))"

definition pacman_kill :: "rat \<Rightarrow> pacman \<Rightarrow> pacman" where
  "pacman_kill now p = entity_kill now (p\<lparr>lives := lives p - 1\<rparr>)"

definition pacman_move :: "game \<Rightarrow> keys \<Rightarrow> pacman \<Rightarrow> error + pacman" where
  "pacman_move g ks p =
     (let next_direction =
            (if K_UP ks then Up else if K_DOWN ks then Down
             else if K_LEFT ks then Left else if K_RIGHT ks then Right
             else current_direction p)
      in case (if next_direction \<noteq> current_direction p then
                 (case check_collision_wall g next_direction (speed p) (pos p) True of
                    Inl e \<Rightarrow> Inl e
                  | Inr blocked \<Rightarrow>
                      Inr (if \<not> blocked then p\<lparr>current_direction := next_direction\<rparr> else p))
               else Inr p) of
           Inl e \<Rightarrow> Inl e
         | Inr p1 \<Rightarrow> entity_move g True p1)"

section \<open>Levels\<close>

definition default_matrix :: matrix where
  "default_matrix =
     [[3, 3, 3, 3, 3, 3, 3, 3],
      [3, 1, 1, 1, 1, 1, 1, 3],
      [3, 1, 0, 0, 0, 0, 1, 3],
      [3, 1, 0, 7, 0, 0, 1, 3],
      [3, 1, 0, 0, 0, 0, 1, 3],
      [3, 1, 1, 1, 1, 1, 1, 3],
      [3, 3, 3, 3, 3, 3, 3, 3]]"

text \<open>The body of the \<open>try\<close> block of \<open>load_level_from_csv\<close>: what it computes or raises.\<close>

definition read_level :: "(string \<Rightarrow> csv_file) \<Rightarrow> string \<Rightarrow> error + matrix" where
  "read_level fs file_path =
     (case fs file_path of
        NotFound \<Rightarrow> Inl FileNotFoundError
      | Unreadable \<Rightarrow> Inl OSError
      | NotIntegers \<Rightarrow> Inl ValueError
      | Rows rows \<Rightarrow>
          (let level_matrix = filter (\<lambda>row. row \<noteq> []) rows
           in if \<not> list_all (\<lambda>row. length row = length (hd level_matrix)) level_matrix
              then Inl ValueError
              else
                (let width = (if level_matrix \<noteq> [] then length (hd level_matrix) else 0);
                     horizontal_border = replicate (width + 2) 3
                 in Inr ([horizontal_border]
                         @ map (\<lambda>row. [3] @ row @ [3]) level_matrix
                         @ [horizontal_border]))))"

text \<open>The three \<open>except\<close> clauses of \<open>load_level_from_csv\<close> (FileNotFoundError, ValueError,
  Exception) each return the built-in maze.\<close>

definition load_level_from_csv :: "(string \<Rightarrow> csv_file) \<Rightarrow> string \<Rightarrow> error + matrix" where
  "load_level_from_csv fs file_path =
     (case read_level fs file_path of
        Inl e \<Rightarrow> Inr default_matrix
      | Inr level_matrix \<Rightarrow> Inr level_matrix)"

text \<open>\<open>Game.__init__\<close>: the state defaults, the first level, the adversaries and the
  player. \<open>pacman\<close> and \<open>ghosts\<close> do not exist before they are created; the creating
  functions read the tile size and the matrix only.\<close>

definition unset_pacman :: pacman where
  "unset_pacman =
     \<lparr>start_pos = (0, 0), pos = (0, 0), speed = 0, current_direction = Right, alive = True,
      frightened = False, respawn_time = 0, original_speed = 0, lives = 0\<rparr>"

definition init_levels :: "(string \<Rightarrow> csv_file) \<Rightarrow> game \<Rightarrow> error + game" where
  "init_levels fs g =
     (case map_of (levels g) 0 of
        None \<Rightarrow> Inl KeyError
      | Some file_path \<Rightarrow>
          (case load_level_from_csv fs file_path of
             Inl e \<Rightarrow> Inl e
           | Inr m \<Rightarrow> Inr (g\<lparr>level := 0, matrix := m\<rparr>)))"

definition game_init :: "int \<Rightarrow> (nat \<times> string) list \<Rightarrow> (string \<Rightarrow> csv_file) \<Rightarrow> error + game" where
  "game_init ts lvls fs =
     (let g0 = \<lparr>tile_size = ts, levels = lvls, level = 0, matrix = [],
                pacman = unset_pacman, ghosts = [], score = 0, power_pill_active = False,
                power_pill_start_time = 0, game_over = False\<rparr>
      in case init_levels fs g0 of
           Inl e \<Rightarrow> Inl e
         | Inr g1 \<Rightarrow>
             (let g2 = g1\<lparr>ghosts := create_ghosts_from_matrix g1\<rparr>
              in case create_pacman_from_matrix g2 of
                   Inl e \<Rightarrow> Inl e
                 | Inr p \<Rightarrow> Inr (g2\<lparr>pacman := p\<rparr>)))"

text \<open>\<open>Game.level_up\<close>. An exception raised inside the \<open>try\<close> block reaches the handler
  \<open>except FileNotFoundError\<close>, which sets the game-over flag; any other exception
  leaves the method.\<close>

definition level_up_handler :: "game \<Rightarrow> error \<Rightarrow> error + game" where
  "level_up_handler g e = (if e = FileNotFoundError then Inr (g\<lparr>game_over := True\<rparr>) else Inl e)"

definition level_up :: "(string \<Rightarrow> csv_file) \<Rightarrow> rat \<Rightarrow> game \<Rightarrow> error + game" where
  "level_up fs now g =
     (if int (level g) < int (length (levels g)) - 1 then
        (let g1 = g\<lparr>level := level g + 1\<rparr>
         in case map_of (levels g1) (level g1) of
              None \<Rightarrow> level_up_handler g1 KeyError
            | Some file_path \<Rightarrow>
                (case load_level_from_csv fs file_path of
                   Inl e \<Rightarrow> level_up_handler g1 e
                 | Inr m \<Rightarrow>
                     (let g2 = g1\<lparr>matrix := m\<rparr>
                      in case create_pacman_from_matrix g2 of
                           Inl e \<Rightarrow> level_up_handler g2 e
                         | Inr p \<Rightarrow>
                             (let g3 = g2\<lparr>pacman := p\<lparr>lives := lives p + 1\<rparr>\<rparr>;
                                  g4 = g3\<lparr>pacman := pacman_kill now (pacman g3)\<rparr>
                              in Inr (g4\<lparr>ghosts := create_ghosts_from_matrix g4\<rparr>)))))
      else Inr (g\<lparr>game_over := True\<rparr>))"

section \<open>Power mode\<close>

definition activate_power_pill :: "rat \<Rightarrow> game \<Rightarrow> game" where
  "activate_power_pill now g =
     (if \<not> power_pill_active g then
        g\<lparr>power_pill_active := True, power_pill_start_time := now,
          ghosts := map (\<lambda>gh. gh\<lparr>frightened := True, speed := speed gh / 2\<rparr>) (ghosts g)\<rparr>
      else g)"

definition update_power_pill :: "rat \<Rightarrow> game \<Rightarrow> game" where
  "update_power_pill now g =
     (if power_pill_active g \<and> now - power_pill_start_time g > 5 then
        g\<lparr>ghosts := map (\<lambda>gh. if frightened gh
                                then gh\<lparr>frightened := False, speed := original_speed gh\<rparr>
                                else gh) (ghosts g),
          power_pill_active := False\<rparr>
      else g)"

section \<open>Collisions, pickups and fruits\<close>

text \<open>
  \<open>collision_pacman_ghost\<close>: the player's box is computed once, before the loop. The
  \<open>for\<close> loop walks the list \<open>ghosts\<close> by position while the fatal branch empties and
  refills that same list, so after a fatal collision the loop goes on, at the next
  position, over the adversaries just created. \<open>collision_loop\<close> is that loop from
  position \<open>i\<close>.
\<close>

definition entity_rect :: "game \<Rightarrow> 'a entity_scheme \<Rightarrow> rect" where
  "entity_rect g e =
     Rect (fst (pos e)) (snd (pos e))
          (of_int (convert_to_pixels g 1)) (of_int (convert_to_pixels g 1))"

definition fatal_collision :: "rat \<Rightarrow> game \<Rightarrow> game" where
  "fatal_collision now g =
     (let g1 = g\<lparr>pacman := pacman_kill now (pacman g)\<rparr>;
          g2 = g1\<lparr>ghosts := create_ghosts_from_matrix g1\<rparr>;
          g3 = g2\<lparr>power_pill_active := False\<rparr>
      in if lives (pacman g3) \<le> 0 then g3\<lparr>game_over := True\<rparr> else g3)"

definition collision_body :: "rat \<Rightarrow> rect \<Rightarrow> nat \<Rightarrow> game \<Rightarrow> game" where
  "collision_body now pacman_rect i g =
     (let ghost = ghosts g ! i
      in if colliderect pacman_rect (entity_rect g ghost) then
           (if frightened ghost then
              g\<lparr>ghosts := (ghosts g)[i := entity_kill now ghost], score := score g + 200\<rparr>
            else fatal_collision now g)
         else g)"

function collision_loop :: "rat \<Rightarrow> rect \<Rightarrow> nat \<Rightarrow> game \<Rightarrow> game" where
  "collision_loop now pacman_rect i g =
     (if i < length (ghosts g)
      then collision_loop now pacman_rect (Suc i) (collision_body now pacman_rect i g)
      else g)"
  by pat_completeness auto
termination
proof (relation "measure (\<lambda>(now, r, i, g).
          max (length (ghosts g)) (length (create_ghosts_from_matrix g)) - i)")
  show "wf (measure (\<lambda>(now, r, i, g).
          max (length (ghosts g)) (length (create_ghosts_from_matrix g)) - i))"
    by simp
next
  fix now :: rat and pacman_rect :: rect and i :: nat and g :: game
  assume lt: "i < length (ghosts g)"
  have same: "create_ghosts_from_matrix (collision_body now pacman_rect i g)
                = create_ghosts_from_matrix g"
    by (simp add: collision_body_def fatal_collision_def create_ghosts_from_matrix_def
        ghost_init_def convert_to_pixels_def Let_def)
  have len: "length (ghosts (collision_body now pacman_rect i g)) = length (ghosts g)
           \<or> ghosts (collision_body now pacman_rect i g) = create_ghosts_from_matrix g"
    by (simp add: collision_body_def fatal_collision_def create_ghosts_from_matrix_def
        ghost_init_def convert_to_pixels_def Let_def)
  from lt same len
  show "((now, pacman_rect, Suc i, collision_body now pacman_rect i g),
         (now, pacman_rect, i, g))
        \<in> measure (\<lambda>(now, r, i, g).
            max (length (ghosts g)) (length (create_ghosts_from_matrix g)) - i)"
    by auto
qed

definition collision_pacman_ghost :: "rat \<Rightarrow> game \<Rightarrow> game" where
  "collision_pacman_ghost now g = collision_loop now (entity_rect g (pacman g)) 0 g"

definition handle_collisions_and_points ::
  "rat \<Rightarrow> int \<Rightarrow> game \<Rightarrow> error + (bool \<times> int \<times> game)" where
  "handle_collisions_and_points now current_score g =
     (case occupied_index g (pos (pacman g)) of
        Inl e \<Rightarrow> Inl e
      | Inr (pacman_y, pacman_x) \<Rightarrow>
          (case occupied_code g (pos (pacman g)) of
             Inl e \<Rightarrow> Inl e
           | Inr c \<Rightarrow>
               if c = 0 then
                 (let g1 = g\<lparr>matrix := set_cell (matrix g) pacman_y pacman_x (- 1)\<rparr>
                  in if \<not> list_ex (\<lambda>row. 0 \<in> set row) (matrix g1)
                     then Inr (True, current_score + 10, g1)
                     else Inr (False, current_score + 10, g1))
               else if c = - 2 then
                 Inr (False, current_score + 100,
                      g\<lparr>matrix := set_cell (matrix g) pacman_y pacman_x (- 1)\<rparr>)
               else if c = - 3 then
                 (let g1 = activate_power_pill now g
                  in Inr (False, current_score,
                          g1\<lparr>matrix := set_cell (matrix g1) pacman_y pacman_x (- 1)\<rparr>))
               else Inr (False, current_score, g)))"

text \<open>\<open>place_fruits\<close>: \<open>r\<close> is the draw of \<open>random.randint(0, 200)\<close>, \<open>x\<close> that of
  \<open>random.randint(0, len(matrix) - 1)\<close> and \<open>y\<close> that of
  \<open>random.randint(0, len(matrix[0]) - 1)\<close>; \<open>randint\<close> raises ValueError on an empty
  range. The result is the matrix and the counter.\<close>

definition fruit_roll :: "int \<Rightarrow> int \<Rightarrow> bool" where
  "fruit_roll fruit_count r = (fruit_count < 2 \<and> r = 0)"

definition place_fruits :: "game \<Rightarrow> int \<Rightarrow> int \<Rightarrow> int \<Rightarrow> int \<Rightarrow> error + (game \<times> int)" where
  "place_fruits g fruit_count r x y =
     (if fruit_roll fruit_count r then
        (if int (length (matrix g)) - 1 < 0 then Inl ValueError
         else if int (length (hd (matrix g))) - 1 < 0 then Inl ValueError
         else
           (case py_get (matrix g) x of
              Inl e \<Rightarrow> Inl e
            | Inr row \<Rightarrow>
                (case py_get row y of
                   Inl e \<Rightarrow> Inl e
                 | Inr c \<Rightarrow>
                     if c < 1 then Inr (g\<lparr>matrix := set_cell (matrix g) x y (- 2)\<rparr>, fruit_count + 1)
                     else Inr (g, fruit_count))))
      else Inr (g, fruit_count))"

text \<open>The chance that one call draws the value that lets a fruit be placed: the share
  of the equally likely outcomes of \<open>random.randint(0, 200)\<close> that pass the test.\<close>

definition fruit_roll_chance :: "int \<Rightarrow> rat" where
  "fruit_roll_chance fruit_count =
     of_nat (length (filter (fruit_roll fruit_count) (randint_outcomes 0 200)))
       / of_nat (length (randint_outcomes 0 200))"

section \<open>One frame\<close>

definition handle_pacman_logic ::
  "rat \<Rightarrow> keys \<Rightarrow> (nat \<Rightarrow> rat) \<Rightarrow> (nat \<Rightarrow> nat) \<Rightarrow> game \<Rightarrow> error + game" where
  "handle_pacman_logic now ks clock pick g =
     (if \<not> alive (pacman g) \<and> now - respawn_time (pacman g) > 3
      then Inr (g\<lparr>pacman := respawn (pacman g)\<rparr>)
      else if alive (pacman g) then
        (case pacman_move g ks (pacman g) of
           Inl e \<Rightarrow> Inl e
         | Inr p \<Rightarrow> update_ghosts clock pick (g\<lparr>pacman := p\<rparr>))
      else Inr g)"

definition pacman_teleport :: "game \<Rightarrow> error + game" where
  "pacman_teleport g =
     (case check_for_teleport g (pos (pacman g)) (current_direction (pacman g)) of
        Inl e \<Rightarrow> Inl e
      | Inr (t, p) \<Rightarrow> Inr (g\<lparr>pacman := (pacman g)\<lparr>pos := p\<rparr>\<rparr>))"

text \<open>The states of a run: the object built by \<open>Game.__init__\<close>, then the calls that
  \<open>start_game\<close> and the loop of \<open>play_game\<close> make on it, each with whatever clock reading,
  key state and random draws it meets. A call that raises ends the program.\<close>

inductive reachable :: "game \<Rightarrow> bool" where
  r_init: "game_init ts lvls fs = Inr g \<Longrightarrow> reachable g"
| r_pacman_logic:
    "reachable g \<Longrightarrow> handle_pacman_logic now ks clock pick g = Inr g' \<Longrightarrow> reachable g'"
| r_collision: "reachable g \<Longrightarrow> reachable (collision_pacman_ghost now g)"
| r_teleport: "reachable g \<Longrightarrow> pacman_teleport g = Inr g' \<Longrightarrow> reachable g'"
| r_power: "reachable g \<Longrightarrow> reachable (update_power_pill now g)"
| r_points:
    "reachable g \<Longrightarrow> handle_collisions_and_points now sc g = Inr (won, sc', g')
       \<Longrightarrow> reachable g'"
| r_level_up: "reachable g \<Longrightarrow> level_up fs now g = Inr g' \<Longrightarrow> reachable g'"
| r_fruits: "reachable g \<Longrightarrow> place_fruits g fc r x y = Inr (g', fc') \<Longrightarrow> reachable g'"

section \<open>The power-mode invariant\<close>

text \<open>The fields of an adversary that power mode reads and writes.\<close>

definition power_fields :: "ghost \<Rightarrow> rat \<times> bool \<times> rat" where
  "power_fields gh = (speed gh, frightened gh, original_speed gh)"

definition ghost_ok :: "ghost \<Rightarrow> bool" where
  "ghost_ok gh = (speed gh = (if frightened gh then original_speed gh / 2 else original_speed gh))"

definition power_inv :: "game \<Rightarrow> bool" where
  "power_inv g = (list_all ghost_ok (ghosts g)
      \<and> (\<not> power_pill_active g \<longrightarrow> list_all (\<lambda>gh. \<not> frightened gh) (ghosts g)))"

section \<open>Example states\<close>

text \<open>A 4 by 4 grid at tile size 20: an invisible-wall cell (code 2) right of the tile at
  column 1, row 1, and a wall cell (code 1) below it.\<close>

definition barrier_game :: game where
  "barrier_game =
     \<lparr>tile_size = 20, levels = [], level = 0,
      matrix = [[3, 3, 3, 3], [3, 0, 2, 3], [3, 1, 0, 3], [3, 3, 3, 3]],
      pacman = unset_pacman, ghosts = [], score = 0, power_pill_active = False,
      power_pill_start_time = 0, game_over = False\<rparr>"

text \<open>A run: the first level is the row \<open>-3, 7, 5\<close> (power pickup, player, adversary) at
  tile size 20; the player steps left onto the power pickup and consumes it.\<close>

definition demo_fs :: "string \<Rightarrow> csv_file" where
  "demo_fs file_path = (if file_path = ''lvl0.csv'' then Rows [[- 3, 7, 5]] else NotFound)"

definition demo_levels :: "(nat \<times> string) list" where
  "demo_levels = [(0, ''lvl0.csv''), (1, ''lvl1.csv'')]"

definition demo_start :: game where
  "demo_start = projr (game_init 20 demo_levels demo_fs)"

definition demo_keys_left :: keys where
  "demo_keys_left = \<lparr>K_UP = False, K_DOWN = False, K_LEFT = True, K_RIGHT = False\<rparr>"

definition demo_moved :: game where
  "demo_moved = projr (handle_pacman_logic 1 demo_keys_left (\<lambda>k. 1) (\<lambda>k. 0) demo_start)"

definition demo_power :: game where
  "demo_power = snd (snd (projr (handle_collisions_and_points 2 0 demo_moved)))"

text \<open>Two grids with the player on a point cell at column 1, row 1: one with a second
  point left, one where it is the last point.\<close>

definition dots_game :: game where
  "dots_game =
     \<lparr>tile_size = 20, levels = [], level = 0,
      matrix = [[3, 3, 3, 3], [3, 0, 0, 3], [3, 3, 3, 3]],
      pacman = unset_pacman\<lparr>start_pos := (20, 20), pos := (20, 20), speed := 5,
                            original_speed := 5, lives := 3\<rparr>,
      ghosts = [], score = 0, power_pill_active = False,
      power_pill_start_time = 0, game_over = False\<rparr>"

definition last_dot_game :: game where
  "last_dot_game = dots_game\<lparr>matrix := [[3, 3, 3, 3], [3, 0, - 1, 3], [3, 3, 3, 3]]\<rparr>"

text \<open>Level advance from the example run: with a second level file (adversaries, a
  point and the player), without one, and from a player with a single life left.\<close>

definition next_fs :: "string \<Rightarrow> csv_file" where
  "next_fs file_path =
     (if file_path = ''lvl0.csv'' then Rows [[- 3, 7, 5]]
      else if file_path = ''lvl1.csv'' then Rows [[5, 0, 7], [0, 5, 0]]
      else NotFound)"

definition demo_next :: game where
  "demo_next = projr (level_up next_fs 9 demo_power)"

definition demo_fallback :: game where
  "demo_fallback = projr (level_up demo_fs 9 demo_power)"

definition demo_low :: game where
  "demo_low = demo_power\<lparr>pacman := (pacman demo_power)\<lparr>lives := 1\<rparr>\<rparr>"

definition demo_low_next :: game where
  "demo_low_next = projr (level_up next_fs 9 demo_low)"

section \<open>Properties\<close>

subsection \<open>Collision resolver\<close>

lemma scan_walls_rectangular:
  assumes "\<forall>c \<in> set cells. snd c < length (matrix g ! fst c)"
  shows "scan_walls g r isp cells =
     Inr (\<exists>c \<in> set cells. (matrix g ! fst c ! snd c = 1 \<or> (matrix g ! fst c ! snd c = 2 \<and> isp))
            \<and> colliderect r (wall_rect g (snd c) (fst c)))"
  using assms
proof (induction cells)
  case Nil
  then show ?case by simp
next
  case (Cons c cells)
  obtain y x where c: "c = (y, x)" by (cases c)
  from Cons.prems c have x: "x < length (matrix g ! y)" by simp
  from Cons.prems have "\<forall>c \<in> set cells. snd c < length (matrix g ! fst c)" by simp
  from Cons.IH [OF this] x show ?case
    unfolding c by (simp del: colliderect.simps) blast
qed

text \<open>
  Claim C1, as stated, fails: in \<open>barrier_game\<close> the box of an entity at tile (1, 1) moved
  right by 4 overlaps the code-2 cell at column 2, row 1, yet the adversary's test
  (\<open>is_pacman = False\<close>) answers "free", while the player's test (\<open>is_pacman = True\<close>)
  answers "blocked" because of that same cell.
\<close>

theorem C1_invisible_wall_counterexample:
  "colliderect (moved_rect barrier_game Right 4 (20, 20)) (wall_rect barrier_game 2 1)
   \<and> matrix barrier_game ! 1 ! 2 = 2
   \<and> check_collision_wall barrier_game Right 4 (20, 20) False = Inr False
   \<and> check_collision_wall barrier_game Right 5 (20, 20) True = Inr True"
  by code_simp

text \<open>
  Claim C1, amended: on a rectangular grid \<open>check_collision_wall\<close> answers "blocked"
  exactly when the moved one-tile box overlaps a wall cell (code 1) or, for the player
  only (\<open>is_pacman = True\<close>, as \<open>Pacman.move\<close> calls it), an invisible-wall cell (code 2).
  The adversary's test (\<open>is_pacman = False\<close>, as \<open>Ghost.move\<close> and \<open>is_intersection\<close>
  call it) ignores code-2 cells; code-1 cells block both.
\<close>

theorem C1_check_collision_wall_blocking:
  assumes "\<forall>row \<in> set (matrix g). length row = length (hd (matrix g))"
  shows "check_collision_wall g d sp p is_pacman =
     Inr (\<exists>y < length (matrix g). \<exists>x < length (hd (matrix g)).
            (matrix g ! y ! x = 1 \<or> (matrix g ! y ! x = 2 \<and> is_pacman))
            \<and> colliderect (moved_rect g d sp p) (wall_rect g x y))"
proof -
  let ?cells = "List.product [0..<length (matrix g)] [0..<length (hd (matrix g))]"
  have "\<forall>c \<in> set ?cells. snd c < length (matrix g ! fst c)"
    using assms by auto
  from scan_walls_rectangular [OF this]
  show ?thesis
    unfolding check_collision_wall_def by (simp add: Bex_def del: colliderect.simps)
qed

theorem C1_check_collision_wall_blocking_witness:
  "list_all (\<lambda>row. length row = length (hd (matrix barrier_game))) (matrix barrier_game)
   \<and> check_collision_wall barrier_game Right 5 (20, 20) True = Inr True
   \<and> check_collision_wall barrier_game Right 4 (20, 20) False = Inr False
   \<and> check_collision_wall barrier_game Down 4 (20, 20) False = Inr True
   \<and> check_collision_wall barrier_game Down 5 (20, 20) True = Inr True
   \<and> check_collision_wall barrier_game Right 5 (20, 20) True =
       Inr (\<exists>y < length (matrix barrier_game). \<exists>x < length (hd (matrix barrier_game)).
            (matrix barrier_game ! y ! x = 1 \<or> (matrix barrier_game ! y ! x = 2 \<and> True))
            \<and> colliderect (moved_rect barrier_game Right 5 (20, 20)) (wall_rect barrier_game x y))"
proof -
  have h: "\<forall>row \<in> set (matrix barrier_game). length row = length (hd (matrix barrier_game))"
    by (simp add: barrier_game_def)
  have a: "check_collision_wall barrier_game Right 5 (20, 20) True = Inr True" by code_simp
  have b: "check_collision_wall barrier_game Right 4 (20, 20) False = Inr False" by code_simp
  have c: "check_collision_wall barrier_game Down 4 (20, 20) False = Inr True" by code_simp
  have d: "check_collision_wall barrier_game Down 5 (20, 20) True = Inr True" by code_simp
  note e = C1_check_collision_wall_blocking [OF h, of Right 5 "(20, 20)" True]
  from h have h': "list_all (\<lambda>row. length row = length (hd (matrix barrier_game)))
      (matrix barrier_game)"
    by (simp only: list_all_iff)
  from h' a b c d e show ?thesis by (simp only: simp_thms)
qed

subsection \<open>The example run\<close>

lemma demo_start_init: "game_init 20 demo_levels demo_fs = Inr demo_start"
  by code_simp

lemma demo_moved_step:
  "handle_pacman_logic 1 demo_keys_left (\<lambda>k. 1) (\<lambda>k. 0) demo_start = Inr demo_moved"
  by code_simp

lemma demo_power_step: "handle_collisions_and_points 2 0 demo_moved = Inr (False, 0, demo_power)"
  by code_simp

lemma reachable_demo_start: "reachable demo_start"
  by (rule r_init [OF demo_start_init])

lemma reachable_demo_moved: "reachable demo_moved"
  by (rule r_pacman_logic [OF reachable_demo_start demo_moved_step])

lemma reachable_demo_power: "reachable demo_power"
  by (rule r_points [OF reachable_demo_moved demo_power_step])

subsection \<open>Power mode: what each operation does to the adversaries\<close>

lemma probe_fields:
  assumes "probe g d st = Inr st'"
  shows "power_fields (fst st') = power_fields (fst st)"
proof (cases "current_direction (fst st) \<noteq> d")
  case False
  with assms show ?thesis by (simp add: probe_def Let_def)
next
  case True
  show ?thesis
  proof (cases "check_collision_wall g d (speed (fst st)) (pos (fst st)) False")
    case (Inl e)
    with assms True show ?thesis by (simp add: probe_def Let_def)
  next
    case (Inr blocked)
    show ?thesis
    proof (cases blocked)
      case True
      with assms Inr \<open>current_direction (fst st) \<noteq> d\<close> show ?thesis
        by (simp add: probe_def Let_def)
    next
      case False
      show ?thesis
      proof (cases "check_for_teleport g (pos (fst st)) (current_direction (fst st))")
        case (Inl e)
        with assms Inr False \<open>current_direction (fst st) \<noteq> d\<close> show ?thesis
          by (simp add: probe_def Let_def)
      next
        case tp: (Inr r)
        obtain t p where r: "r = (t, p)" by (cases r)
        with assms Inr False tp \<open>current_direction (fst st) \<noteq> d\<close>
        have "fst st' = (fst st)\<lparr>pos := p\<rparr>"
          by (auto simp add: probe_def Let_def)
        then show ?thesis by (simp add: power_fields_def)
      qed
    qed
  qed
qed


lemma scan_directions_fields:
  assumes "scan_directions g gh = Inr st"
  shows "power_fields (fst st) = power_fields gh"
proof -
  from assms obtain s1 s2 s3 where
    p1: "probe g Up (gh, []) = Inr s1" and p2: "probe g Down s1 = Inr s2"
    and p3: "probe g Left s2 = Inr s3" and p4: "probe g Right s3 = Inr st"
    unfolding scan_directions_def by (simp split: sum.splits)
  from probe_fields [OF p1] probe_fields [OF p2] probe_fields [OF p3] probe_fields [OF p4]
  show ?thesis by simp
qed

lemma is_intersection_fields:
  assumes "is_intersection g gh = Inr (b, gh')"
  shows "power_fields gh' = power_fields gh"
proof -
  from assms obtain ds where "scan_directions g gh = Inr (gh', ds)"
    unfolding is_intersection_def by (simp split: sum.splits prod.splits)
  from scan_directions_fields [OF this] show ?thesis by simp
qed

lemma entity_move_fields:
  assumes "entity_move g isp gh = Inr gh'"
  shows "power_fields gh' = power_fields gh"
proof -
  from assms have "gh' = gh \<or> gh' = gh\<lparr>pos := step_pos (current_direction gh) (speed gh) (pos gh)\<rparr>"
    unfolding entity_move_def by (simp split: sum.splits if_splits)
  then show ?thesis by (auto simp: power_fields_def)
qed

lemma change_direction_random_fields:
  "power_fields (change_direction_random r gh) = power_fields gh"
  by (simp add: change_direction_random_def power_fields_def)

lemma ghost_move_fields:
  assumes "ghost_move g r gh = Inr gh'"
  shows "power_fields gh' = power_fields gh"
proof (cases "check_collision_wall g (current_direction gh) (speed gh) (pos gh) False")
  case (Inl e)
  with assms show ?thesis by (simp add: ghost_move_def)
next
  case (Inr blocked)
  show ?thesis
  proof (cases blocked)
    case True
    with assms Inr have "gh' = change_direction_random r gh" by (simp add: ghost_move_def)
    then show ?thesis by (simp add: change_direction_random_fields)
  next
    case False
    with assms Inr obtain gh1 b gh2 where
      m: "entity_move g False gh = Inr gh1" and i: "is_intersection g gh1 = Inr (b, gh2)"
      and r: "gh' = (if b then change_direction_random r gh2 else gh2)"
      by (auto simp: ghost_move_def split: sum.splits prod.splits)
    from entity_move_fields [OF m] is_intersection_fields [OF i] r
    show ?thesis by (simp add: change_direction_random_fields)
  qed
qed


lemma ghost_ok_fields: "power_fields gh' = power_fields gh \<Longrightarrow> ghost_ok gh' = ghost_ok gh"
  by (simp add: power_fields_def ghost_ok_def)

lemma frightened_fields: "power_fields gh' = power_fields gh \<Longrightarrow> frightened gh' = frightened gh"
  by (simp add: power_fields_def)

lemma respawn_ok: "ghost_ok (respawn gh) \<and> \<not> frightened (respawn gh)"
  by (simp add: respawn_def ghost_ok_def)

lemma update_ghosts_from_inv:
  "update_ghosts_from g clock pick k gs = Inr gs' \<Longrightarrow>
     (list_all ghost_ok gs \<longrightarrow> list_all ghost_ok gs')
   \<and> (list_all (\<lambda>gh. \<not> frightened gh) gs \<longrightarrow> list_all (\<lambda>gh. \<not> frightened gh) gs')"
proof (induction gs arbitrary: k gs')
  case Nil
  then show ?case by simp
next
  case (Cons gh rest)
  let ?step = "(if \<not> alive gh \<and> clock k - respawn_time gh > 3 then Inr (respawn gh)
            else if alive gh then ghost_move g (pick k) gh
            else Inr gh)"
  from Cons.prems obtain gh1 rest1 where
    s: "?step = Inr gh1" and r: "update_ghosts_from g clock pick (Suc k) rest = Inr rest1"
    and e: "gs' = gh1 # rest1"
    by (auto split: sum.splits)
  from s have "gh1 = respawn gh \<or> gh1 = gh \<or> ghost_move g (pick k) gh = Inr gh1"
    by (simp split: if_splits)
  then have h: "(ghost_ok gh \<longrightarrow> ghost_ok gh1) \<and> (\<not> frightened gh \<longrightarrow> \<not> frightened gh1)"
    using respawn_ok [of gh] ghost_ok_fields [OF ghost_move_fields, of g "pick k" gh gh1]
      frightened_fields [OF ghost_move_fields, of g "pick k" gh gh1]
    by blast
  from Cons.IH [OF r] h e show ?case by simp
qed

lemma create_ghosts_fresh:
  "list_all (\<lambda>gh. ghost_ok gh \<and> \<not> frightened gh) (create_ghosts_from_matrix g)"
  by (auto simp: create_ghosts_from_matrix_def ghost_init_def entity_init_def ghost_ok_def
      list_all_iff)

lemma fresh_inv:
  "ghosts g = create_ghosts_from_matrix g' \<Longrightarrow> power_inv g"
  using create_ghosts_fresh [of g'] by (simp add: power_inv_def list_all_iff)

lemma power_inv_cong:
  "ghosts g' = ghosts g \<Longrightarrow> power_pill_active g' = power_pill_active g \<Longrightarrow>
   power_inv g' = power_inv g"
  by (simp add: power_inv_def)

lemma game_init_inv:
  assumes "game_init ts lvls fs = Inr g"
  shows "power_inv g"
proof -
  from assms obtain g1 p where
    g: "g = g1\<lparr>ghosts := create_ghosts_from_matrix g1, pacman := p\<rparr>"
    unfolding game_init_def Let_def by (auto split: sum.splits)
  show ?thesis by (rule fresh_inv [of _ g1]) (simp add: g)
qed


lemma update_ghosts_inv:
  assumes "update_ghosts clock pick g = Inr g'" and "power_inv g"
  shows "power_inv g'"
proof -
  from assms(1) obtain gs where
    u: "update_ghosts_from g clock pick 0 (ghosts g) = Inr gs" and g': "g' = g\<lparr>ghosts := gs\<rparr>"
    unfolding update_ghosts_def by (auto split: sum.splits)
  from update_ghosts_from_inv [OF u] assms(2) show ?thesis
    by (simp add: power_inv_def g')
qed


lemma handle_pacman_logic_inv:
  assumes "handle_pacman_logic now ks clock pick g = Inr g'" and "power_inv g"
  shows "power_inv g'"
proof (cases "\<not> alive (pacman g) \<and> now - respawn_time (pacman g) > 3")
  case True
  with assms(1) have "g' = g\<lparr>pacman := respawn (pacman g)\<rparr>"
    by (simp add: handle_pacman_logic_def)
  with assms(2) show ?thesis by (simp add: power_inv_def)
next
  case False
  show ?thesis
  proof (cases "alive (pacman g)")
    case True
    show ?thesis
    proof (cases "pacman_move g ks (pacman g)")
      case (Inl e)
      with assms(1) True False show ?thesis by (simp add: handle_pacman_logic_def)
    next
      case (Inr p)
      with assms(1) True False have u: "update_ghosts clock pick (g\<lparr>pacman := p\<rparr>) = Inr g'"
        by (simp add: handle_pacman_logic_def)
      have "power_inv (g\<lparr>pacman := p\<rparr>)" using assms(2) by (simp add: power_inv_def)
      from update_ghosts_inv [OF u this] show ?thesis .
    qed
  next
    case dead: False
    with assms(1) False have "g' = g" by (simp add: handle_pacman_logic_def)
    with assms(2) show ?thesis by simp
  qed
qed


lemma fatal_collision_inv: "power_inv (fatal_collision now g)"
proof -
  have "ghosts (fatal_collision now g) = create_ghosts_from_matrix (g\<lparr>pacman := pacman_kill now (pacman g)\<rparr>)"
    by (simp add: fatal_collision_def Let_def)
  then show ?thesis by (rule fresh_inv)
qed


lemma entity_kill_fields: "power_fields (entity_kill now gh) = power_fields gh"
  by (simp add: entity_kill_def power_fields_def)


lemma collision_body_inv:
  assumes "power_inv g" and "i < length (ghosts g)"
  shows "power_inv (collision_body now r i g)"
proof (cases "colliderect r (entity_rect g (ghosts g ! i))")
  case False
  then have "collision_body now r i g = g" by (simp add: collision_body_def Let_def)
  with assms(1) show ?thesis by simp
next
  case True
  show ?thesis
  proof (cases "frightened (ghosts g ! i)")
    case False
    with True have "collision_body now r i g = fatal_collision now g"
      by (simp add: collision_body_def Let_def)
    then show ?thesis by (simp add: fatal_collision_inv)
  next
    case fr: True
    let ?k = "entity_kill now (ghosts g ! i)"
    from True fr have eq: "collision_body now r i g
        = g\<lparr>ghosts := (ghosts g)[i := ?k], score := score g + 200\<rparr>"
      by (simp add: collision_body_def Let_def)
    have ok: "ghost_ok ?k = ghost_ok (ghosts g ! i)"
      and f: "frightened ?k = frightened (ghosts g ! i)"
      by (rule ghost_ok_fields [OF entity_kill_fields], rule frightened_fields [OF entity_kill_fields])
    have upd: "\<And>P. P ?k = P (ghosts g ! i) \<Longrightarrow> list_all P (ghosts g)
        \<Longrightarrow> list_all P ((ghosts g)[i := ?k])"
      using assms(2) by (simp add: list_all_length nth_list_update)
    from upd [of ghost_ok, OF ok] upd [of "\<lambda>gh. \<not> frightened gh"] f assms(1)
    show ?thesis unfolding eq by (simp add: power_inv_def)
  qed
qed


lemma collision_loop_inv:
  "power_inv g \<Longrightarrow> power_inv (collision_loop now r i g)"
proof (induction now r i g rule: collision_loop.induct)
  case (1 now r i g)
  show ?case
  proof (cases "i < length (ghosts g)")
    case True
    from collision_body_inv [OF "1.prems" True]
    have "power_inv (collision_body now r i g)" .
    from "1.IH" [OF True this] True show ?thesis
      by (subst collision_loop.simps) simp
  next
    case False
    with "1.prems" show ?thesis by (subst collision_loop.simps) simp
  qed
qed


lemma update_power_pill_inv:
  assumes "power_inv g" shows "power_inv (update_power_pill now g)"
  using assms
  by (auto simp: update_power_pill_def power_inv_def list_all_iff ghost_ok_def)


lemma activate_power_pill_inv:
  assumes "power_inv g" shows "power_inv (activate_power_pill now g)"
  using assms
  by (auto simp: activate_power_pill_def power_inv_def list_all_iff ghost_ok_def)



lemma pacman_teleport_inv:
  assumes "pacman_teleport g = Inr g'" and "power_inv g"
  shows "power_inv g'"
proof (cases "check_for_teleport g (pos (pacman g)) (current_direction (pacman g))")
  case (Inl e)
  with assms(1) show ?thesis by (simp add: pacman_teleport_def)
next
  case (Inr r)
  with assms(1) have "g' = g\<lparr>pacman := (pacman g)\<lparr>pos := snd r\<rparr>\<rparr>"
    by (simp add: pacman_teleport_def split: prod.splits)
  with assms(2) show ?thesis by (simp add: power_inv_def)
qed

lemma power_inv_matrix: "power_inv (g\<lparr>matrix := m\<rparr>) = power_inv g"
  by (simp add: power_inv_def)

lemma handle_collisions_and_points_inv:
  assumes "handle_collisions_and_points now sc g = Inr (won, sc', g')" and "power_inv g"
  shows "power_inv g'"
proof -
  from assms(1) obtain iy ix c where
    i: "occupied_index g (pos (pacman g)) = Inr (iy, ix)"
    and c: "occupied_code g (pos (pacman g)) = Inr c"
    unfolding handle_collisions_and_points_def by (simp split: sum.splits prod.splits)
  let ?a = "activate_power_pill now g"
  from assms(1) i c have "g' = g\<lparr>matrix := set_cell (matrix g) iy ix (- 1)\<rparr>
      \<or> g' = ?a\<lparr>matrix := set_cell (matrix ?a) iy ix (- 1)\<rparr> \<or> g' = g"
    unfolding handle_collisions_and_points_def Let_def by (simp split: if_splits)
  moreover have "power_inv ?a" by (rule activate_power_pill_inv [OF assms(2)])
  ultimately show ?thesis using assms(2) power_inv_matrix by metis
qed

lemma level_up_inv:
  assumes "level_up fs now g = Inr g'" and "power_inv g"
  shows "power_inv g'"
proof (cases "int (level g) < int (length (levels g)) - 1")
  case False
  with assms(1) have "g' = g\<lparr>game_over := True\<rparr>" by (simp add: level_up_def)
  with assms(2) show ?thesis by (simp add: power_inv_def)
next
  case True
  let ?g1 = "g\<lparr>level := level g + 1\<rparr>"
  have inv1: "power_inv (?g1\<lparr>game_over := True\<rparr>)" using assms(2) by (simp add: power_inv_def)
  show ?thesis
  proof (cases "map_of (levels ?g1) (level ?g1)")
    case None
    with assms(1) True show ?thesis by (simp add: level_up_def level_up_handler_def Let_def)
  next
    case (Some file_path)
    obtain m where m: "load_level_from_csv fs file_path = Inr m"
      by (cases "read_level fs file_path") (simp_all add: load_level_from_csv_def)
    let ?g2 = "?g1\<lparr>matrix := m\<rparr>"
    show ?thesis
    proof (cases "create_pacman_from_matrix ?g2")
      case (Inl e)
      then have "e = ValueError"
        by (simp add: create_pacman_from_matrix_def split: list.splits)
      with assms(1) True Some m Inl show ?thesis
        by (simp add: level_up_def level_up_handler_def Let_def)
    next
      case (Inr p)
      let ?g4 = "?g2\<lparr>pacman := pacman_kill now (p\<lparr>lives := lives p + 1\<rparr>)\<rparr>"
      from assms(1) True Some m Inr
      have "g' = ?g4\<lparr>ghosts := create_ghosts_from_matrix ?g4\<rparr>"
        by (simp add: level_up_def Let_def)
      then have "ghosts g' = create_ghosts_from_matrix ?g4" by simp
      then show ?thesis by (rule fresh_inv)
    qed
  qed
qed

lemma place_fruits_inv:
  assumes "place_fruits g fc r x y = Inr (g', fc')" and "power_inv g"
  shows "power_inv g'"
proof -
  from assms(1) have "g' = g \<or> g' = g\<lparr>matrix := set_cell (matrix g) x y (- 2)\<rparr>"
    unfolding place_fruits_def by (simp split: if_splits sum.splits)
  with assms(2) power_inv_matrix show ?thesis by metis
qed

lemma reachable_power_inv: "reachable g \<Longrightarrow> power_inv g"
proof (induction rule: reachable.induct)
  case (r_init ts lvls fs g)
  then show ?case by (rule game_init_inv)
next
  case (r_pacman_logic g now ks clock pick g')
  then show ?case using handle_pacman_logic_inv by blast
next
  case (r_collision g now)
  from r_collision.IH show ?case unfolding collision_pacman_ghost_def by (rule collision_loop_inv)
next
  case (r_teleport g g')
  then show ?case using pacman_teleport_inv by blast
next
  case (r_power g now)
  from r_power.IH show ?case by (rule update_power_pill_inv)
next
  case (r_points g now sc won sc' g')
  then show ?case using handle_collisions_and_points_inv by blast
next
  case (r_level_up g fs now g')
  then show ?case using level_up_inv by blast
next
  case (r_fruits g fc r x y g' fc')
  then show ?case using place_fruits_inv by blast
qed

subsection \<open>Power mode: the claims\<close>

text \<open>
  Claim C10: in every state of a run, each adversary's speed is half its original speed
  while its frightened flag is set and its original speed while the flag is clear. An
  adversary that is dead past its 3-unit delay is respawned by \<open>update_ghosts\<close> whatever
  the power-mode flag says, and comes back at its original speed and not frightened; while
  the power-mode flag is set, activation does nothing, so power mode is not applied again
  to it.
\<close>

theorem C10_adversary_speed_invariant:
  assumes "reachable g" and "gh \<in> set (ghosts g)"
  shows "(frightened gh \<longrightarrow> speed gh = original_speed gh / 2)
       \<and> (\<not> frightened gh \<longrightarrow> speed gh = original_speed gh)
       \<and> (\<not> alive gh \<and> clock k - respawn_time gh > 3 \<longrightarrow>
            update_ghosts_from g clock pick k [gh] = Inr [respawn gh])
       \<and> speed (respawn gh) = original_speed gh
       \<and> original_speed (respawn gh) = original_speed gh
       \<and> \<not> frightened (respawn gh)
       \<and> (power_pill_active g \<longrightarrow> activate_power_pill now g = g)"
proof -
  from reachable_power_inv [OF assms(1)] assms(2) have "ghost_ok gh"
    by (simp add: power_inv_def list_all_iff)
  then have "(frightened gh \<longrightarrow> speed gh = original_speed gh / 2)
       \<and> (\<not> frightened gh \<longrightarrow> speed gh = original_speed gh)"
    by (simp add: ghost_ok_def)
  moreover have "\<not> alive gh \<and> clock k - respawn_time gh > 3 \<longrightarrow>
            update_ghosts_from g clock pick k [gh] = Inr [respawn gh]"
    by simp
  moreover have "speed (respawn gh) = original_speed gh
       \<and> original_speed (respawn gh) = original_speed gh \<and> \<not> frightened (respawn gh)"
    by (simp add: respawn_def)
  moreover have "power_pill_active g \<longrightarrow> activate_power_pill now g = g"
    by (simp add: activate_power_pill_def)
  ultimately show ?thesis by blast
qed

theorem C10_adversary_speed_invariant_witness:
  "reachable demo_power
   \<and> hd (ghosts demo_power) \<in> set (ghosts demo_power)
   \<and> frightened (hd (ghosts demo_power))
   \<and> original_speed (hd (ghosts demo_power)) = 4
   \<and> speed (hd (ghosts demo_power)) = original_speed (hd (ghosts demo_power)) / 2
   \<and> speed (respawn (hd (ghosts demo_power))) = original_speed (hd (ghosts demo_power))
   \<and> \<not> frightened (respawn (hd (ghosts demo_power)))
   \<and> power_pill_active demo_power
   \<and> activate_power_pill 3 demo_power = demo_power"
proof -
  have m: "hd (ghosts demo_power) \<in> set (ghosts demo_power)" by code_simp
  have f: "frightened (hd (ghosts demo_power))" by code_simp
  have o: "original_speed (hd (ghosts demo_power)) = 4" by code_simp
  have a: "power_pill_active demo_power" by code_simp
  from C10_adversary_speed_invariant [OF reachable_demo_power m, of "\<lambda>k. 0" 0 "\<lambda>k. 0" 3]
    reachable_demo_power m f o a
  show ?thesis by simp
qed

text \<open>
  Claim C5: activating power mode while the flag is set leaves the whole state as it is
  (no second halving, no new timestamp). Deactivation (an update more than 5 units after
  the activation) clears the flag and sets the speed of every frightened adversary to its
  original speed. From a state of a run with power mode off, activation halves every
  speed and deactivation gives every adversary the speed it had before.
\<close>

theorem C5_power_mode_idempotent:
  "(power_pill_active g \<longrightarrow> activate_power_pill now g = g)
   \<and> (power_pill_active g \<and> now - power_pill_start_time g > 5 \<longrightarrow>
        \<not> power_pill_active (update_power_pill now g)
        \<and> map speed (ghosts (update_power_pill now g))
            = map (\<lambda>gh. if frightened gh then original_speed gh else speed gh) (ghosts g)
        \<and> list_all (\<lambda>gh. \<not> frightened gh) (ghosts (update_power_pill now g)))
   \<and> (reachable g \<and> \<not> power_pill_active g \<and> t2 - t1 > 5 \<longrightarrow>
        map speed (ghosts (activate_power_pill t1 g)) = map (\<lambda>gh. speed gh / 2) (ghosts g)
        \<and> list_all frightened (ghosts (activate_power_pill t1 g))
        \<and> map speed (ghosts (update_power_pill t2 (activate_power_pill t1 g)))
            = map speed (ghosts g)
        \<and> list_all (\<lambda>gh. \<not> frightened gh)
             (ghosts (update_power_pill t2 (activate_power_pill t1 g)))
        \<and> \<not> power_pill_active (update_power_pill t2 (activate_power_pill t1 g)))"
proof (intro conjI impI)
  assume "power_pill_active g"
  then show "activate_power_pill now g = g" by (simp add: activate_power_pill_def)
next
  assume a: "power_pill_active g \<and> now - power_pill_start_time g > 5"
  then show "\<not> power_pill_active (update_power_pill now g)"
    by (simp add: update_power_pill_def)
  from a show "map speed (ghosts (update_power_pill now g))
            = map (\<lambda>gh. if frightened gh then original_speed gh else speed gh) (ghosts g)"
    by (simp add: update_power_pill_def)
  from a show "list_all (\<lambda>gh. \<not> frightened gh) (ghosts (update_power_pill now g))"
    by (auto simp: update_power_pill_def list_all_iff)
next
  assume a: "reachable g \<and> \<not> power_pill_active g \<and> t2 - t1 > 5"
  with reachable_power_inv [of g] have ok: "\<forall>gh \<in> set (ghosts g). speed gh = original_speed gh"
    by (simp add: power_inv_def list_all_iff ghost_ok_def)
  from a show "map speed (ghosts (activate_power_pill t1 g)) = map (\<lambda>gh. speed gh / 2) (ghosts g)"
    by (simp add: activate_power_pill_def)
  from a show "list_all frightened (ghosts (activate_power_pill t1 g))"
    by (simp add: activate_power_pill_def list_all_iff)
  from a ok show "map speed (ghosts (update_power_pill t2 (activate_power_pill t1 g)))
            = map speed (ghosts g)"
    by (simp add: activate_power_pill_def update_power_pill_def)
  from a show "list_all (\<lambda>gh. \<not> frightened gh)
             (ghosts (update_power_pill t2 (activate_power_pill t1 g)))"
    by (auto simp: activate_power_pill_def update_power_pill_def list_all_iff)
  from a show "\<not> power_pill_active (update_power_pill t2 (activate_power_pill t1 g))"
    by (simp add: activate_power_pill_def update_power_pill_def)
qed

theorem C5_power_mode_idempotent_witness:
  "power_pill_active demo_power
   \<and> activate_power_pill 4 demo_power = demo_power
   \<and> 8 - power_pill_start_time demo_power > 5
   \<and> map speed (ghosts demo_power) = [2]
   \<and> map speed (ghosts (update_power_pill 8 demo_power)) = [4]
   \<and> reachable demo_moved \<and> \<not> power_pill_active demo_moved \<and> (8::rat) - 2 > 5
   \<and> map speed (ghosts demo_moved) = [4]
   \<and> map speed (ghosts (activate_power_pill 2 demo_moved)) = [2]
   \<and> map speed (ghosts (update_power_pill 8 (activate_power_pill 2 demo_moved))) = [4]"
proof -
  have a: "power_pill_active demo_power" by code_simp
  have t: "8 - power_pill_start_time demo_power > 5" by code_simp
  have s: "map speed (ghosts demo_power) = [2]" by code_simp
  have fo: "map (\<lambda>gh. if frightened gh then original_speed gh else speed gh) (ghosts demo_power) = [4]"
    by code_simp
  have n: "\<not> power_pill_active demo_moved" by code_simp
  have s0: "map speed (ghosts demo_moved) = [4]" by code_simp
  have s1: "map (\<lambda>gh. speed gh / 2) (ghosts demo_moved) = [2]" by code_simp
  from C5_power_mode_idempotent [of demo_power 4] a
  have 1: "activate_power_pill 4 demo_power = demo_power" by blast
  from C5_power_mode_idempotent [of demo_power 8] a t fo
  have 2: "map speed (ghosts (update_power_pill 8 demo_power)) = [4]" by simp
  from C5_power_mode_idempotent [of demo_moved 0 8 2] reachable_demo_moved n s0 s1
  have 3: "map speed (ghosts (activate_power_pill 2 demo_moved)) = [2]
      \<and> map speed (ghosts (update_power_pill 8 (activate_power_pill 2 demo_moved))) = [4]"
    by simp
  from a t s n s0 1 2 3 reachable_demo_moved show ?thesis by simp
qed

subsection \<open>Teleport resolver\<close>

text \<open>
  Claim C6: when the tile occupied by the position has code 3, \<open>check_for_teleport\<close>
  returns true and sets only the coordinate of the movement axis: right goes to column 1,
  left to column \<open>width - 2\<close>, up to row \<open>height - 2\<close>, down to row 1 (in pixels, times
  the tile size). When the occupied tile has another code it returns false and the
  position is unchanged.
\<close>

theorem C6_check_for_teleport:
  "(occupied_code g p = Inr 3 \<longrightarrow>
      check_for_teleport g p d =
        Inr (True,
          (case d of
             Right \<Rightarrow> (of_int (1 * tile_size g), snd p)
           | Left \<Rightarrow> (of_int ((int (length (hd (matrix g))) - 2) * tile_size g), snd p)
           | Up \<Rightarrow> (fst p, of_int ((int (length (matrix g)) - 2) * tile_size g))
           | Down \<Rightarrow> (fst p, of_int (1 * tile_size g)))))
   \<and> (\<forall>c. occupied_code g p = Inr c \<and> c \<noteq> 3 \<longrightarrow> check_for_teleport g p d = Inr (False, p))"
  by (cases d) (simp_all add: check_for_teleport_def convert_to_pixels_def)

theorem C6_check_for_teleport_witness:
  "occupied_code barrier_game (0, 20) = Inr 3
   \<and> check_for_teleport barrier_game (0, 20) Right = Inr (True, (20, 20))
   \<and> check_for_teleport barrier_game (0, 20) Left = Inr (True, (40, 20))
   \<and> check_for_teleport barrier_game (0, 20) Up = Inr (True, (0, 40))
   \<and> check_for_teleport barrier_game (0, 20) Down = Inr (True, (0, 20))
   \<and> occupied_code barrier_game (20, 20) = Inr 0
   \<and> check_for_teleport barrier_game (20, 20) Left = Inr (False, (20, 20))"
proof -
  have a: "occupied_code barrier_game (0, 20) = Inr 3" by code_simp
  have b: "occupied_code barrier_game (20, 20) = Inr 0" by code_simp
  have m: "matrix barrier_game = [[3, 3, 3, 3], [3, 0, 2, 3], [3, 1, 0, 3], [3, 3, 3, 3]]"
    and t: "tile_size barrier_game = 20"
    by (simp_all add: barrier_game_def)
  from C6_check_for_teleport [of barrier_game "(0, 20)" Right]
    C6_check_for_teleport [of barrier_game "(0, 20)" Left]
    C6_check_for_teleport [of barrier_game "(0, 20)" Up]
    C6_check_for_teleport [of barrier_game "(0, 20)" Down]
    C6_check_for_teleport [of barrier_game "(20, 20)" Left] a b
  show ?thesis by (simp add: m t)
qed

subsection \<open>Pickups\<close>

lemma py_get_update:
  assumes "py_get xs i = Inr v"
  shows "py_get (xs[nat (norm_index xs i) := w]) i = Inr w"
  using assms by (simp add: py_get_def norm_index_def Let_def split: if_splits)

lemma occupied_code_set_cell:
  assumes "occupied_index g p = Inr (iy, ix)" and "occupied_code g p = Inr c"
  shows "occupied_code (g\<lparr>matrix := set_cell (matrix g) iy ix v\<rparr>) p = Inr v"
proof -
  from assms obtain row where r: "py_get (matrix g) iy = Inr row" and c: "py_get row ix = Inr c"
    by (auto simp: occupied_code_def split: sum.splits)
  from r have row: "row = matrix g ! nat (norm_index (matrix g) iy)"
    by (simp add: py_get_def Let_def split: if_splits)
  have i: "occupied_index (g\<lparr>matrix := set_cell (matrix g) iy ix v\<rparr>) p = Inr (iy, ix)"
    using assms(1) by (simp add: occupied_index_def convert_to_pixels_def split: if_splits)
  have "py_get (set_cell (matrix g) iy ix v) iy = Inr (row[nat (norm_index row ix) := v])"
    unfolding set_cell_def Let_def row [symmetric] by (rule py_get_update [OF r])
  with py_get_update [OF c, of v] i show ?thesis
    by (simp add: occupied_code_def)
qed

text \<open>
  Claim C7: when the player's occupied tile has code 0, \<open>handle_collisions_and_points\<close>
  adds exactly 10 to the score, writes -1 into that cell, and signals level-complete if
  and only if no cell of the grid equals 0 after that write. On a tile whose code is
  already -1 it changes neither the score nor the game.
\<close>

theorem C7_point_pickup:
  "(occupied_code g (pos (pacman g)) = Inr 0 \<longrightarrow>
      (\<exists>iy ix won. occupied_index g (pos (pacman g)) = Inr (iy, ix)
         \<and> handle_collisions_and_points now sc g =
             Inr (won, sc + 10, g\<lparr>matrix := set_cell (matrix g) iy ix (- 1)\<rparr>)
         \<and> (won \<longleftrightarrow> (\<forall>row \<in> set (set_cell (matrix g) iy ix (- 1)). 0 \<notin> set row))
         \<and> occupied_code (g\<lparr>matrix := set_cell (matrix g) iy ix (- 1)\<rparr>) (pos (pacman g))
             = Inr (- 1)))
   \<and> (occupied_code g (pos (pacman g)) = Inr (- 1) \<longrightarrow>
        handle_collisions_and_points now sc g = Inr (False, sc, g))"
proof (intro conjI impI)
  assume c: "occupied_code g (pos (pacman g)) = Inr 0"
  then obtain iy ix where i: "occupied_index g (pos (pacman g)) = Inr (iy, ix)"
    by (auto simp: occupied_code_def split: sum.splits)
  let ?m = "set_cell (matrix g) iy ix (- 1)"
  let ?won = "\<not> list_ex (\<lambda>row. 0 \<in> set row) ?m"
  from i c have h: "handle_collisions_and_points now sc g = Inr (?won, sc + 10, g\<lparr>matrix := ?m\<rparr>)"
    by (simp add: handle_collisions_and_points_def Let_def)
  have w: "?won \<longleftrightarrow> (\<forall>row \<in> set ?m. 0 \<notin> set row)"
    by (simp add: list_ex_iff)
  from i h w occupied_code_set_cell [OF i c, of "- 1"]
  show "\<exists>iy ix won. occupied_index g (pos (pacman g)) = Inr (iy, ix)
         \<and> handle_collisions_and_points now sc g =
             Inr (won, sc + 10, g\<lparr>matrix := set_cell (matrix g) iy ix (- 1)\<rparr>)
         \<and> (won \<longleftrightarrow> (\<forall>row \<in> set (set_cell (matrix g) iy ix (- 1)). 0 \<notin> set row))
         \<and> occupied_code (g\<lparr>matrix := set_cell (matrix g) iy ix (- 1)\<rparr>) (pos (pacman g))
             = Inr (- 1)"
    by blast
next
  assume c: "occupied_code g (pos (pacman g)) = Inr (- 1)"
  then obtain iy ix where i: "occupied_index g (pos (pacman g)) = Inr (iy, ix)"
    by (auto simp: occupied_code_def split: sum.splits)
  from i c show "handle_collisions_and_points now sc g = Inr (False, sc, g)"
    by (simp add: handle_collisions_and_points_def Let_def)
qed

theorem C7_point_pickup_witness:
  "occupied_code dots_game (pos (pacman dots_game)) = Inr 0
   \<and> handle_collisions_and_points 0 50 dots_game
       = Inr (False, 60, dots_game\<lparr>matrix := [[3, 3, 3, 3], [3, - 1, 0, 3], [3, 3, 3, 3]]\<rparr>)
   \<and> occupied_code last_dot_game (pos (pacman last_dot_game)) = Inr 0
   \<and> handle_collisions_and_points 0 50 last_dot_game
       = Inr (True, 60, dots_game\<lparr>matrix := [[3, 3, 3, 3], [3, - 1, - 1, 3], [3, 3, 3, 3]]\<rparr>)
   \<and> occupied_code (dots_game\<lparr>matrix := [[3, 3, 3, 3], [3, - 1, 0, 3], [3, 3, 3, 3]]\<rparr>)
        (pos (pacman dots_game)) = Inr (- 1)
   \<and> handle_collisions_and_points 0 60
        (dots_game\<lparr>matrix := [[3, 3, 3, 3], [3, - 1, 0, 3], [3, 3, 3, 3]]\<rparr>)
       = Inr (False, 60, dots_game\<lparr>matrix := [[3, 3, 3, 3], [3, - 1, 0, 3], [3, 3, 3, 3]]\<rparr>)"
proof -
  let ?eaten = "dots_game\<lparr>matrix := [[3, 3, 3, 3], [3, - 1, 0, 3], [3, 3, 3, 3]]\<rparr>"
  have a: "occupied_code dots_game (pos (pacman dots_game)) = Inr 0" by code_simp
  have b: "occupied_code last_dot_game (pos (pacman last_dot_game)) = Inr 0" by code_simp
  have c: "occupied_code ?eaten (pos (pacman ?eaten)) = Inr (- 1)" by code_simp
  have p: "pos (pacman ?eaten) = pos (pacman dots_game)" by simp
  have 1: "handle_collisions_and_points 0 50 dots_game = Inr (False, 60, ?eaten)" by code_simp
  have 2: "handle_collisions_and_points 0 50 last_dot_game
       = Inr (True, 60, dots_game\<lparr>matrix := [[3, 3, 3, 3], [3, - 1, - 1, 3], [3, 3, 3, 3]]\<rparr>)"
    by code_simp
  from C7_point_pickup [of ?eaten 0 60] c
  have 3: "handle_collisions_and_points 0 60 ?eaten = Inr (False, 60, ?eaten)" by blast
  from a b c p 1 2 3 show ?thesis by simp
qed

subsection \<open>Fruit placement\<close>

lemma fruit_outcomes: "filter (\<lambda>r. r = 0) (randint_outcomes 0 200) = [0]"
  by code_simp

lemma fruit_outcomes_length: "length (randint_outcomes 0 200) = 201"
  by (simp add: randint_outcomes_def)

text \<open>
  Claim C9, as stated, fails: \<open>random.randint(0, 200)\<close> has 201 equally likely outcomes,
  of which only 0 lets a fruit be placed, so the chance per call is 1/201 and not 1/200.
\<close>

theorem C9_fruit_chance_counterexample:
  "fruit_roll_chance 0 = 1 / 201 \<and> fruit_roll_chance 0 \<noteq> 1 / 200"
proof -
  have "fruit_roll 0 = (\<lambda>r. r = 0)" by (simp add: fruit_roll_def fun_eq_iff)
  then show ?thesis by (simp add: fruit_roll_chance_def fruit_outcomes fruit_outcomes_length)
qed

text \<open>
  Claim C9, amended: while the fruit counter is below 2 the placement is attempted with
  probability exactly 1/201, and never once the counter has reached 2. Without the
  attempt nothing changes. With it, for a row \<open>x\<close> and a column \<open>y\<close> drawn by
  \<open>randint\<close> over the rows and over the columns of the first row, the fruit code -2 is
  written only if that cell's code is less than 1, and then the counter grows by one;
  otherwise grid and counter stay as they are.
\<close>

theorem C9_place_fruits:
  "(fc < 2 \<longrightarrow> fruit_roll_chance fc = 1 / 201)
   \<and> (\<not> fc < 2 \<longrightarrow> fruit_roll_chance fc = 0)
   \<and> (\<not> (fc < 2 \<and> r = 0) \<longrightarrow> place_fruits g fc r x y = Inr (g, fc))
   \<and> (fc < 2 \<and> r = 0
        \<and> x \<in> set (randint_outcomes 0 (int (length (matrix g)) - 1))
        \<and> y \<in> set (randint_outcomes 0 (int (length (hd (matrix g))) - 1))
        \<and> nat y < length (matrix g ! nat x) \<longrightarrow>
        place_fruits g fc r x y =
          (if matrix g ! nat x ! nat y < 1
           then Inr (g\<lparr>matrix := (matrix g)[nat x := (matrix g ! nat x)[nat y := - 2]]\<rparr>, fc + 1)
           else Inr (g, fc)))"
proof (intro conjI impI)
  assume "fc < 2"
  then have "fruit_roll fc = (\<lambda>r. r = 0)" by (simp add: fruit_roll_def fun_eq_iff)
  then show "fruit_roll_chance fc = 1 / 201"
    by (simp add: fruit_roll_chance_def fruit_outcomes fruit_outcomes_length)
next
  assume "\<not> fc < 2"
  then have "fruit_roll fc = (\<lambda>r. False)" by (simp add: fruit_roll_def fun_eq_iff)
  then show "fruit_roll_chance fc = 0" by (simp add: fruit_roll_chance_def)
next
  assume "\<not> (fc < 2 \<and> r = 0)"
  then have "\<not> fruit_roll fc r" by (simp add: fruit_roll_def)
  then show "place_fruits g fc r x y = Inr (g, fc)"
    by (simp add: place_fruits_def)
next
  assume a: "fc < 2 \<and> r = 0
        \<and> x \<in> set (randint_outcomes 0 (int (length (matrix g)) - 1))
        \<and> y \<in> set (randint_outcomes 0 (int (length (hd (matrix g))) - 1))
        \<and> nat y < length (matrix g ! nat x)"
  then have x: "0 \<le> x" "x < int (length (matrix g))" and y: "0 \<le> y" "y < int (length (hd (matrix g)))"
    and yr: "nat y < length (matrix g ! nat x)"
    by (simp_all add: randint_outcomes_def)
  have gx: "py_get (matrix g) x = Inr (matrix g ! nat x)"
    using x by (simp add: py_get_def norm_index_def)
  have gy: "py_get (matrix g ! nat x) y = Inr (matrix g ! nat x ! nat y)"
    using y yr by (simp add: py_get_def norm_index_def)
  have sc: "set_cell (matrix g) x y (- 2) = (matrix g)[nat x := (matrix g ! nat x)[nat y := - 2]]"
    using x y by (simp add: set_cell_def norm_index_def Let_def)
  from x y have ne: "matrix g \<noteq> []" "hd (matrix g) \<noteq> []" by auto
  from a x y gx gy sc ne
  show "place_fruits g fc r x y =
          (if matrix g ! nat x ! nat y < 1
           then Inr (g\<lparr>matrix := (matrix g)[nat x := (matrix g ! nat x)[nat y := - 2]]\<rparr>, fc + 1)
           else Inr (g, fc))"
    by (simp add: place_fruits_def fruit_roll_def)
qed

theorem C9_place_fruits_witness:
  "fruit_roll_chance 1 = 1 / 201
   \<and> fruit_roll_chance 2 = 0
   \<and> place_fruits dots_game 1 7 1 1 = Inr (dots_game, 1)
   \<and> place_fruits dots_game 2 0 1 1 = Inr (dots_game, 2)
   \<and> 1 \<in> set (randint_outcomes 0 (int (length (matrix dots_game)) - 1))
   \<and> 2 \<in> set (randint_outcomes 0 (int (length (hd (matrix dots_game))) - 1))
   \<and> place_fruits dots_game 1 0 1 2
       = Inr (dots_game\<lparr>matrix := [[3, 3, 3, 3], [3, 0, - 2, 3], [3, 3, 3, 3]]\<rparr>, 2)
   \<and> place_fruits dots_game 1 0 1 0 = Inr (dots_game, 1)"
proof -
  have m: "matrix dots_game = [[3, 3, 3, 3], [3, 0, 0, 3], [3, 3, 3, 3]]"
    by (simp add: dots_game_def)
  have x: "1 \<in> set (randint_outcomes 0 (int (length (matrix dots_game)) - 1))"
    by (simp add: m randint_outcomes_def)
  have y: "2 \<in> set (randint_outcomes 0 (int (length (hd (matrix dots_game))) - 1))"
    by (simp add: m randint_outcomes_def)
  have y0: "0 \<in> set (randint_outcomes 0 (int (length (hd (matrix dots_game))) - 1))"
    by (simp add: m randint_outcomes_def)
  from C9_place_fruits [of 1 7 dots_game 1 1] C9_place_fruits [of 2 0 dots_game 1 1]
    C9_place_fruits [of 1 0 dots_game 1 2] C9_place_fruits [of 1 0 dots_game 1 0] x y y0
  show ?thesis by (simp add: m)
qed

subsection \<open>Level advance\<close>

lemma load_level_total: "\<exists>m. load_level_from_csv fs file_path = Inr m"
  by (cases "read_level fs file_path") (simp_all add: load_level_from_csv_def)

lemma find_coordinates_frame:
  "find_coordinates_of_value (g\<lparr>level := l, matrix := m\<rparr>) v
     = find_coordinates_of_value (g\<lparr>matrix := m\<rparr>) v"
  by (simp add: find_coordinates_of_value_def convert_to_pixels_def)

lemma create_ghosts_frame:
  "tile_size g' = tile_size g \<Longrightarrow> matrix g' = matrix g \<Longrightarrow>
   create_ghosts_from_matrix g' = create_ghosts_from_matrix g"
  by (simp add: create_ghosts_from_matrix_def ghost_init_def convert_to_pixels_def)

lemma level_up_advance:
  assumes "int (level g) < int (length (levels g)) - 1"
    and "map_of (levels g) (level g + 1) = Some file_path"
    and "load_level_from_csv fs file_path = Inr m"
    and "find_coordinates_of_value (g\<lparr>matrix := m\<rparr>) 7 = start # others"
  shows "\<exists>g'. level_up fs now g = Inr g'
           \<and> score g' = score g
           \<and> lives (pacman g') = 3
           \<and> pos (pacman g') = start \<and> start_pos (pacman g') = start
           \<and> \<not> alive (pacman g') \<and> respawn_time (pacman g') = now
           \<and> ghosts g' = create_ghosts_from_matrix (g\<lparr>matrix := m\<rparr>)
           \<and> matrix g' = m \<and> level g' = level g + 1
           \<and> game_over g' = game_over g
           \<and> power_pill_active g' = power_pill_active g"
proof -
  let ?g2 = "g\<lparr>level := level g + 1, matrix := m\<rparr>"
  have p: "create_pacman_from_matrix ?g2 = Inr (pacman_init ?g2 start)"
    using assms(4) by (simp add: create_pacman_from_matrix_def find_coordinates_frame)
  let ?p = "pacman_kill now ((pacman_init ?g2 start)\<lparr>lives := lives (pacman_init ?g2 start) + 1\<rparr>)"
  let ?g4 = "?g2\<lparr>pacman := ?p\<rparr>"
  have l: "level_up fs now g = Inr (?g4\<lparr>ghosts := create_ghosts_from_matrix ?g4\<rparr>)"
    using assms(1,2,3) p by (simp add: level_up_def Let_def)
  have gh: "create_ghosts_from_matrix ?g4 = create_ghosts_from_matrix (g\<lparr>matrix := m\<rparr>)"
    by (rule create_ghosts_frame) simp_all
  have pf: "lives ?p = 3 \<and> pos ?p = start \<and> start_pos ?p = start \<and> \<not> alive ?p
      \<and> respawn_time ?p = now"
    by (simp add: pacman_kill_def entity_kill_def pacman_init_def)
  from l gh pf show ?thesis by simp
qed

lemma demo_next_step: "level_up next_fs 9 demo_power = Inr demo_next"
  by code_simp

lemma demo_low_next_step: "level_up next_fs 9 demo_low = Inr demo_low_next"
  by code_simp

lemma demo_fallback_step: "level_up demo_fs 9 demo_power = Inr demo_fallback"
  by code_simp

lemma default_matrix_spawn:
  assumes "matrix g = default_matrix"
  shows "find_coordinates_of_value g 7
     = [(of_int (convert_to_pixels g 3), of_int (convert_to_pixels g 3))]"
  by (simp add: find_coordinates_of_value_def assms default_matrix_def)

lemma default_matrix_ghosts:
  assumes "matrix g = default_matrix"
  shows "create_ghosts_from_matrix g = []"
  by (simp add: create_ghosts_from_matrix_def assms default_matrix_def)

text \<open>
  Claim C4, as stated, fails: the lives counter does not persist and is not one more
  than before. From the example run's state with 3 lives the advance ends with 3 lives,
  and from the same state with 1 life it ends with 3 lives as well.
\<close>

theorem C4_lives_counterexample:
  "level_up next_fs 9 demo_power = Inr demo_next
   \<and> lives (pacman demo_power) = 3
   \<and> lives (pacman demo_next) = 3
   \<and> lives (pacman demo_next) \<noteq> lives (pacman demo_power) + 1
   \<and> level_up next_fs 9 demo_low = Inr demo_low_next
   \<and> lives (pacman demo_low) = 1
   \<and> lives (pacman demo_low_next) = 3
   \<and> lives (pacman demo_low_next) \<noteq> lives (pacman demo_low) + 1"
proof -
  have a: "lives (pacman demo_power) = 3" by code_simp
  have b: "lives (pacman demo_next) = 3" by code_simp
  have c: "lives (pacman demo_low) = 1" by code_simp
  have d: "lives (pacman demo_low_next) = 3" by code_simp
  from a b c d demo_next_step demo_low_next_step show ?thesis by simp
qed

text \<open>
  Claim C4, amended: when \<open>level_up\<close> advances (a next level is configured, its grid
  holds a player marker), the score is unchanged, the player is a new one placed at the
  new grid's spawn, dead until its respawn, with its lives counter at 3 whatever it was
  before (3 of a new player, plus one, minus one for the kill that pauses the game), and
  the adversaries are those created from the new grid's spawn markers.
\<close>

theorem C4_level_up_advance:
  assumes "int (level g) < int (length (levels g)) - 1"
    and "map_of (levels g) (level g + 1) = Some file_path"
    and "load_level_from_csv fs file_path = Inr m"
    and "find_coordinates_of_value (g\<lparr>matrix := m\<rparr>) 7 = start # others"
  shows "\<exists>g'. level_up fs now g = Inr g'
           \<and> score g' = score g
           \<and> lives (pacman g') = 3
           \<and> pos (pacman g') = start \<and> start_pos (pacman g') = start
           \<and> \<not> alive (pacman g') \<and> respawn_time (pacman g') = now
           \<and> ghosts g' = create_ghosts_from_matrix (g\<lparr>matrix := m\<rparr>)
           \<and> matrix g' = m \<and> level g' = level g + 1
           \<and> game_over g' = game_over g
           \<and> power_pill_active g' = power_pill_active g"
  by (rule level_up_advance [OF assms])

theorem C4_level_up_advance_witness:
  "int (level demo_low) < int (length (levels demo_low)) - 1
   \<and> map_of (levels demo_low) (level demo_low + 1) = Some ''lvl1.csv''
   \<and> load_level_from_csv next_fs ''lvl1.csv''
       = Inr [[3, 3, 3, 3, 3], [3, 5, 0, 7, 3], [3, 0, 5, 0, 3], [3, 3, 3, 3, 3]]
   \<and> find_coordinates_of_value
        (demo_low\<lparr>matrix := [[3, 3, 3, 3, 3], [3, 5, 0, 7, 3], [3, 0, 5, 0, 3], [3, 3, 3, 3, 3]]\<rparr>) 7
       = (60, 20) # []
   \<and> level_up next_fs 9 demo_low = Inr demo_low_next
   \<and> score demo_low_next = score demo_low
   \<and> lives (pacman demo_low) = 1
   \<and> lives (pacman demo_low_next) = 3
   \<and> pos (pacman demo_low_next) = (60, 20)
   \<and> map pos (ghosts demo_low_next) = [(20, 20), (40, 40)]
   \<and> level demo_low_next = 1"
proof -
  let ?m = "[[3, 3, 3, 3, 3], [3, 5, 0, 7, 3], [3, 0, 5, 0, 3], [3, 3, 3, 3, 3]] :: matrix"
  have 1: "int (level demo_low) < int (length (levels demo_low)) - 1" by code_simp
  have 2: "map_of (levels demo_low) (level demo_low + 1) = Some ''lvl1.csv''" by code_simp
  have 3: "load_level_from_csv next_fs ''lvl1.csv'' = Inr ?m" by code_simp
  have 4: "find_coordinates_of_value (demo_low\<lparr>matrix := ?m\<rparr>) 7 = (60, 20) # []" by code_simp
  have 5: "lives (pacman demo_low) = 1" by code_simp
  have 6: "map pos (ghosts demo_low_next) = [(20, 20), (40, 40)]" by code_simp
  from C4_level_up_advance [OF 1 2 3 4, of 9] demo_low_next_step
  have 7: "score demo_low_next = score demo_low \<and> lives (pacman demo_low_next) = 3
      \<and> pos (pacman demo_low_next) = (60, 20) \<and> level demo_low_next = level demo_low + 1"
    by auto
  have 8: "level demo_low = 0" by code_simp
  from 1 2 3 4 5 6 7 8 demo_low_next_step show ?thesis by simp
qed

text \<open>
  Claim C8: a missing level file. \<open>load_level_from_csv\<close> catches FileNotFoundError itself
  and returns the built-in maze, for the first level (\<open>Game.__init__\<close>) as the claim
  says, but for a later level too: \<open>level_up\<close> then goes on with the built-in maze and
  leaves the game-over flag as it was, its own handler for FileNotFoundError never
  running. The claim's second half (game over on a later level) is what that handler
  was written for and is not what happens.
\<close>

theorem C8_missing_level_file:
  assumes "fs file_path = NotFound"
  shows "load_level_from_csv fs file_path = Inr default_matrix
     \<and> (map_of lvls 0 = Some file_path \<longrightarrow>
          (\<exists>g0. game_init ts lvls fs = Inr g0 \<and> matrix g0 = default_matrix \<and> \<not> game_over g0))
     \<and> (int (level g) < int (length (levels g)) - 1
          \<and> map_of (levels g) (level g + 1) = Some file_path \<longrightarrow>
          (\<exists>g'. level_up fs now g = Inr g' \<and> matrix g' = default_matrix
                \<and> game_over g' = game_over g \<and> ghosts g' = []))"
proof (intro conjI impI)
  show l: "load_level_from_csv fs file_path = Inr default_matrix"
    using assms by (simp add: load_level_from_csv_def read_level_def)
  {
    assume m: "map_of lvls 0 = Some file_path"
    let ?g0 = "\<lparr>tile_size = ts, levels = lvls, level = 0, matrix = [],
                pacman = unset_pacman, ghosts = [], score = 0, power_pill_active = False,
                power_pill_start_time = 0, game_over = False\<rparr>"
    let ?g1 = "?g0\<lparr>level := 0, matrix := default_matrix\<rparr>"
    have i: "init_levels fs ?g0 = Inr ?g1" using m l by (simp add: init_levels_def)
    let ?g2 = "?g1\<lparr>ghosts := create_ghosts_from_matrix ?g1\<rparr>"
    have "matrix ?g2 = default_matrix" by simp
    from default_matrix_spawn [OF this]
    have "\<exists>p. create_pacman_from_matrix ?g2 = Inr p"
      by (simp add: create_pacman_from_matrix_def)
    then obtain p where p: "create_pacman_from_matrix ?g2 = Inr p" ..
    have "game_init ts lvls fs = Inr (?g2\<lparr>pacman := p\<rparr>)"
      using i p by (simp add: game_init_def Let_def)
    then show "\<exists>g0. game_init ts lvls fs = Inr g0 \<and> matrix g0 = default_matrix \<and> \<not> game_over g0"
      by simp
  }
  {
    assume a: "int (level g) < int (length (levels g)) - 1
          \<and> map_of (levels g) (level g + 1) = Some file_path"
    have "matrix (g\<lparr>matrix := default_matrix\<rparr>) = default_matrix" by simp
    from default_matrix_spawn [OF this]
    have "\<exists>start. find_coordinates_of_value (g\<lparr>matrix := default_matrix\<rparr>) 7 = start # []"
      by simp
    then obtain start where
      s: "find_coordinates_of_value (g\<lparr>matrix := default_matrix\<rparr>) 7 = start # []" ..
    from a have a1: "int (level g) < int (length (levels g)) - 1"
      and a2: "map_of (levels g) (level g + 1) = Some file_path" by simp_all
    from level_up_advance [OF a1 a2 l s, of now]
      default_matrix_ghosts [of "g\<lparr>matrix := default_matrix\<rparr>"]
    show "\<exists>g'. level_up fs now g = Inr g' \<and> matrix g' = default_matrix
                \<and> game_over g' = game_over g \<and> ghosts g' = []"
      by auto
  }
qed

theorem C8_missing_level_file_witness:
  "demo_fs ''lvl1.csv'' = NotFound
   \<and> load_level_from_csv demo_fs ''lvl1.csv'' = Inr default_matrix
   \<and> int (level demo_power) < int (length (levels demo_power)) - 1
   \<and> map_of (levels demo_power) (level demo_power + 1) = Some ''lvl1.csv''
   \<and> level_up demo_fs 9 demo_power = Inr demo_fallback
   \<and> matrix demo_fallback = default_matrix
   \<and> game_over demo_fallback = False
   \<and> level demo_fallback = 1"
proof -
  have 1: "demo_fs ''lvl1.csv'' = NotFound" by code_simp
  have 2: "int (level demo_power) < int (length (levels demo_power)) - 1" by code_simp
  have 3: "map_of (levels demo_power) (level demo_power + 1) = Some ''lvl1.csv''" by code_simp
  have 4: "game_over demo_power = False" by code_simp
  have 5: "level demo_fallback = 1" by code_simp
  from C8_missing_level_file [of demo_fs "''lvl1.csv''" "[]" 20 demo_power 9] 1 2 3 4
    demo_fallback_step
  have "load_level_from_csv demo_fs ''lvl1.csv'' = Inr default_matrix
      \<and> matrix demo_fallback = default_matrix \<and> game_over demo_fallback = False"
    by auto
  with 1 2 3 5 demo_fallback_step show ?thesis by simp
qed

end
